theory Spec2Isabelle
  imports Main
begin

section \<open>Python values\<close>

text \<open>
  A Python \<open>str\<close> is a sequence of Unicode code points, so it is modelled as a list of
  code-point numbers. The functions of the program are not typed: \<open>pyval\<close> holds a
  \<open>str\<close> and the other kinds of value that their operations are tried on.
\<close>

type_synonym pystr = "nat list"

datatype pyval = PyStr pystr | PyNone | PyInt int | PyBytes "nat list" | PyList "pyval list"

text \<open>The code points of a text written in ASCII.\<close>

definition ascii :: "string \<Rightarrow> pystr" where
  "ascii s = map of_char s"

text \<open>
  Instances of \<open>Exception\<close>: the class and the message that \<open>str(e)\<close> returns.
  (\<open>except Exception\<close> does not catch \<open>KeyboardInterrupt\<close> or \<open>SystemExit\<close>;
  they are not modelled.)
\<close>

datatype exn_class =
  AttributeError | TypeError | KeyError | OSError | ValueError | UnicodeEncodeError
  | InvalidSignatureError | LineBotApiError | HttpError

datatype pyexn = PyExn exn_class pystr

fun exn_class_of :: "pyexn \<Rightarrow> exn_class" where
  "exn_class_of (PyExn c m) = c"

fun exn_str :: "pyexn \<Rightarrow> pystr" where
  "exn_str (PyExn c m) = m"

text \<open>The name of the type of a value, as the messages of the interpreter show it.\<close>

fun type_name :: "pyval \<Rightarrow> pystr" where
  "type_name (PyStr s) = ascii ''str''"
| "type_name PyNone = ascii ''NoneType''"
| "type_name (PyInt i) = ascii ''int''"
| "type_name (PyBytes b) = ascii ''bytes''"
| "type_name (PyList l) = ascii ''list''"

text \<open>
  The exception for a method that the value does not have: the message is
  \<open>'T' object has no attribute 'name'\<close>, with the quotes (code point 39).
\<close>

definition no_attribute :: "pyval \<Rightarrow> string \<Rightarrow> pyexn" where
  "no_attribute v name =
     PyExn AttributeError
       ([39] @ type_name v @ [39] @ ascii '' object has no attribute '' @ [39] @ ascii name @ [39])"

text \<open>The truth value of a value, as \<open>if\<close> takes it.\<close>

fun truthy :: "pyval \<Rightarrow> bool" where
  "truthy (PyStr s) \<longleftrightarrow> s \<noteq> []"
| "truthy PyNone \<longleftrightarrow> False"
| "truthy (PyInt i) \<longleftrightarrow> i \<noteq> 0"
| "truthy (PyBytes b) \<longleftrightarrow> b \<noteq> []"
| "truthy (PyList l) \<longleftrightarrow> l \<noteq> []"

section \<open>String primitives of the standard library\<close>

text \<open>
  \<open>str.isspace\<close>, \<open>str.strip\<close> and the regular-expression class \<open>\s\<close> (on a
  \<open>str\<close> pattern) all use the same table of whitespace code points.
\<close>

definition is_space :: "nat \<Rightarrow> bool" where
  "is_space c \<longleftrightarrow>
     (9 \<le> c \<and> c \<le> 13) \<or> (28 \<le> c \<and> c \<le> 32) \<or> c = 133 \<or> c = 160 \<or> c = 5760
     \<or> (8192 \<le> c \<and> c \<le> 8202) \<or> c = 8232 \<or> c = 8233 \<or> c = 8239 \<or> c = 8287
     \<or> c = 12288"

text \<open>\<open>s.strip()\<close>: leading and trailing whitespace removed.\<close>

definition strip :: "pystr \<Rightarrow> pystr" where
  "strip s = rev (dropWhile is_space (rev (dropWhile is_space s)))"

text \<open>\<open>s.split(sep)\<close> for a separator of one character: always at least one piece.\<close>

fun split_char :: "nat \<Rightarrow> pystr \<Rightarrow> pystr \<Rightarrow> pystr list" where
  "split_char sep piece [] = [piece]"
| "split_char sep piece (c # cs) =
     (if c = sep then piece # split_char sep [] cs else split_char sep (piece @ [c]) cs)"

definition newline :: nat where
  "newline = 10"

definition tab :: nat where
  "tab = 9"

text \<open>
  The pattern \<open>\t|\s{2,}\<close> matched at the start of \<open>s\<close>: the length of the match.
  The alternatives are tried in order, so a tab is matched alone; otherwise \<open>\s{2,}\<close>
  is greedy and takes the whole run of whitespace, which must have two characters at least.
\<close>

definition match_sep :: "pystr \<Rightarrow> nat option" where
  "match_sep s =
     (case s of
        [] \<Rightarrow> None
      | c # cs \<Rightarrow>
          if c = tab then Some 1
          else (let n = length (takeWhile is_space s) in if 2 \<le> n then Some n else None))"

text \<open>
  \<open>re.split(r'\t|\s{2,}', s)\<close>: the pieces between the successive leftmost matches,
  the search going on after each match. The pattern has no group and matches no empty
  string.
\<close>

function re_split_from :: "pystr \<Rightarrow> pystr \<Rightarrow> pystr list" where
  "re_split_from piece [] = [piece]"
| "re_split_from piece (c # cs) =
     (case match_sep (c # cs) of
        Some n \<Rightarrow> piece # re_split_from [] (drop n (c # cs))
      | None \<Rightarrow> re_split_from (piece @ [c]) cs)"
  by pat_completeness auto
termination
  by (relation "measure (\<lambda>(piece, s). length s)")
    (auto simp: match_sep_def Let_def split: if_splits)

definition re_split :: "pystr \<Rightarrow> pystr list" where
  "re_split s = re_split_from [] s"

text \<open>\<open>b.strip()\<close> of a \<open>bytes\<close> value takes away the ASCII whitespace.\<close>

definition is_ascii_space :: "nat \<Rightarrow> bool" where
  "is_ascii_space c \<longleftrightarrow> (9 \<le> c \<and> c \<le> 13) \<or> c = 32"

definition bytes_strip :: "nat list \<Rightarrow> nat list" where
  "bytes_strip b = rev (dropWhile is_ascii_space (rev (dropWhile is_ascii_space b)))"

section \<open>The operations of format_text_to_table on any value\<close>

text \<open>
  Each operation of the function is a call on a value whose type is known only when the
  program runs. On a value without the method, or of the wrong type, the call raises.
\<close>

text \<open>\<open>v.split('\n')\<close>. A \<open>bytes\<close> value has the method but refuses a \<open>str\<close> separator.\<close>

fun py_split_newline :: "pyval \<Rightarrow> pyexn + pyval list" where
  "py_split_newline (PyStr s) = Inr (map PyStr (split_char newline [] s))"
| "py_split_newline (PyBytes b) =
     Inl (PyExn TypeError
            (ascii ''a bytes-like object is required, not '' @ [39] @ ascii ''str'' @ [39]))"
| "py_split_newline v = Inl (no_attribute v ''split'')"

text \<open>\<open>v.strip()\<close>.\<close>

fun py_strip :: "pyval \<Rightarrow> pyexn + pyval" where
  "py_strip (PyStr s) = Inr (PyStr (strip s))"
| "py_strip (PyBytes b) = Inr (PyBytes (bytes_strip b))"
| "py_strip v = Inl (no_attribute v ''strip'')"

text \<open>\<open>re.split(r'\t|\s{2,}', v)\<close>: the pattern is a \<open>str\<close>, so the value must be one.\<close>

fun py_re_split :: "pyval \<Rightarrow> pyexn + pyval list" where
  "py_re_split (PyStr s) = Inr (map PyStr (re_split s))"
| "py_re_split (PyBytes b) =
     Inl (PyExn TypeError (ascii ''cannot use a string pattern on a bytes-like object''))"
| "py_re_split v =
     Inl (PyExn TypeError
            (ascii ''expected string or bytes-like object, got '' @ [39] @ type_name v @ [39]))"

text \<open>
  The comprehension \<open>[x.strip() for x in xs if x.strip()]\<close>, which the function uses
  for the lines and for the columns: the condition is evaluated first, and the element
  again when the condition holds.
\<close>

fun strip_nonempty :: "pyval list \<Rightarrow> pyexn + pyval list" where
  "strip_nonempty [] = Inr []"
| "strip_nonempty (x # xs) =
     (case py_strip x of
        Inl e \<Rightarrow> Inl e
      | Inr c \<Rightarrow>
          if truthy c then
            (case py_strip x of
               Inl e \<Rightarrow> Inl e
             | Inr y \<Rightarrow>
                 (case strip_nonempty xs of
                    Inl e \<Rightarrow> Inl e
                  | Inr ys \<Rightarrow> Inr (y # ys)))
          else strip_nonempty xs)"

section \<open>format_text_to_table\<close>

text \<open>The loop \<open>for line in lines\<close>, with \<open>table_data\<close> as the accumulator.\<close>

fun table_loop :: "pyval list \<Rightarrow> pyval list list \<Rightarrow> pyexn + pyval list list" where
  "table_loop [] table_data = Inr table_data"
| "table_loop (line # lines) table_data =
     (case py_re_split line of
        Inl e \<Rightarrow> Inl e
      | Inr columns \<Rightarrow>
          (case strip_nonempty columns of
             Inl e \<Rightarrow> Inl e
           | Inr columns \<Rightarrow>
               table_loop lines
                 (if columns \<noteq> [] then table_data @ [columns] else table_data)))"

text \<open>The body of the \<open>try\<close>: an exception or the table.\<close>

definition format_body :: "pyval \<Rightarrow> pyexn + pyval list list" where
  "format_body text =
     (case py_split_newline text of
        Inl e \<Rightarrow> Inl e
      | Inr lines \<Rightarrow>
          (case strip_nonempty lines of
             Inl e \<Rightarrow> Inl e
           | Inr lines \<Rightarrow> table_loop lines []))"

text \<open>
  The message that the \<open>except\<close> branch prints: a Japanese sentence of 22 characters,
  a colon, a space and \<open>str(e)\<close>.
\<close>

definition format_error_prefix :: pystr where
  "format_error_prefix =
     [0x30C6, 0x30AD, 0x30B9, 0x30C8, 0x306E, 0x8868, 0x5F62, 0x5F0F, 0x5909, 0x63DB, 0x4E2D,
      0x306B, 0x30A8, 0x30E9, 0x30FC, 0x304C, 0x767A, 0x751F, 0x3057, 0x307E, 0x3057, 0x305F,
      58, 32]"

text \<open>
  The whole function. The argument \<open>stdout\<close> is the standard output: what \<open>print\<close>
  raises for a text, if anything. \<open>except Exception\<close> prints the message and then returns
  the text itself as the only cell; an exception of the \<open>print\<close> leaves the function.
  Cells are Python values, since the fallback row holds \<open>text\<close> whatever it is.
\<close>

definition format_text_to_table_run ::
  "(pystr \<Rightarrow> pyexn option) \<Rightarrow> pyval \<Rightarrow> pyexn + pyval list list" where
  "format_text_to_table_run stdout text =
     (case format_body text of
        Inr table_data \<Rightarrow> Inr table_data
      | Inl e \<Rightarrow>
          (case stdout (format_error_prefix @ exn_str e) of
             Some e' \<Rightarrow> Inl e'
           | None \<Rightarrow> Inr [[text]]))"

text \<open>
  What the function returns on a standard output that takes every text. For a \<open>str\<close>
  nothing is printed, so that this is what the function returns on any standard output.
\<close>

definition format_text_to_table :: "pyval \<Rightarrow> pyval list list" where
  "format_text_to_table text =
     (case format_text_to_table_run (\<lambda>message. None) text of
        Inr table_data \<Rightarrow> table_data
      | Inl e \<Rightarrow> [])"

text \<open>The columns that one pass of the loop makes of a line that is a \<open>str\<close>.\<close>

definition columns_of :: "pystr \<Rightarrow> pystr list" where
  "columns_of line = [strip col. col \<leftarrow> re_split line, strip col \<noteq> []]"

text \<open>A run of two or more consecutive whitespace characters somewhere in the string.\<close>

fun has_space_run :: "pystr \<Rightarrow> bool" where
  "has_space_run (a # b # cs) \<longleftrightarrow> (is_space a \<and> is_space b) \<or> has_space_run (b # cs)"
| "has_space_run [a] \<longleftrightarrow> False"
| "has_space_run [] \<longleftrightarrow> False"

subsection \<open>The formatting as the specification words it\<close>

text \<open>
  The table of the specification, written without the operations of the program above.
  The input is split by newlines: a line ends before each newline, and the last line is
  what follows the last newline.
\<close>

function spec_lines_of :: "pystr \<Rightarrow> pystr list" where
  "spec_lines_of s =
     (if newline \<in> set s
      then takeWhile (\<lambda>c. c \<noteq> newline) s #
           spec_lines_of (tl (dropWhile (\<lambda>c. c \<noteq> newline) s))
      else [s])"
  by pat_completeness auto
termination
proof (relation "measure length")
  show "wf (measure length)" by simp
next
  fix s :: pystr
  assume "newline \<in> set s"
  then have "dropWhile (\<lambda>c. c \<noteq> newline) s \<noteq> []"
    by (simp add: dropWhile_eq_Nil_conv)
  then have "length (tl (dropWhile (\<lambda>c. c \<noteq> newline) s)) <
             length (dropWhile (\<lambda>c. c \<noteq> newline) s)"
    by (cases "dropWhile (\<lambda>c. c \<noteq> newline) s") simp_all
  also have "\<dots> \<le> length s" by (rule length_dropWhile_le)
  finally show "(tl (dropWhile (\<lambda>c. c \<noteq> newline) s), s) \<in> measure length" by simp
qed

declare spec_lines_of.simps [simp del]

text \<open>
  Stripping takes away the whitespace characters at the start of a string and those at
  its end: of \<open>n\<close> characters with \<open>i\<close> whitespace characters in front and \<open>j\<close> behind,
  the \<open>n - i - j\<close> characters after the first \<open>i\<close> remain.
\<close>

definition spec_strip :: "pystr \<Rightarrow> pystr" where
  "spec_strip s =
     (let i = length (takeWhile is_space s);
          j = length (takeWhile is_space (rev s))
      in take (length s - i - j) (drop i s))"

text \<open>
  The runs of a line: its longest stretches of whitespace characters and of other
  characters, in order.
\<close>

function runs :: "pystr \<Rightarrow> pystr list" where
  "runs [] = []"
| "runs (c # cs) =
     (c # takeWhile (\<lambda>d. is_space d = is_space c) cs) #
     runs (dropWhile (\<lambda>d. is_space d = is_space c) cs)"
  by pat_completeness auto
termination
  by (relation "measure length") (auto simp: length_dropWhile_le less_Suc_eq_le)

text \<open>A separator: a tab, or a run of two or more whitespace characters.\<close>

definition separator :: "pystr \<Rightarrow> bool" where
  "separator r \<longleftrightarrow> r = [tab] \<or> (2 \<le> length r \<and> list_all is_space r)"

text \<open>
  A line split on its separators: the runs between two separators, put together, are one
  piece.
\<close>

fun pieces_between :: "pystr \<Rightarrow> pystr list \<Rightarrow> pystr list" where
  "pieces_between piece [] = [piece]"
| "pieces_between piece (r # rs) =
     (if separator r then piece # pieces_between [] rs else pieces_between (piece @ r) rs)"

definition spec_split :: "pystr \<Rightarrow> pystr list" where
  "spec_split line = pieces_between [] (runs line)"

text \<open>
  The lines that are empty after stripping are dropped; each remaining line is split and
  the tokens that are empty after stripping are dropped; each line is one row of its
  remaining tokens. The lines and the tokens that remain are the stripped ones.
\<close>

definition spec_lines :: "pystr \<Rightarrow> pystr list" where
  "spec_lines s = filter (\<lambda>line. line \<noteq> []) (map spec_strip (spec_lines_of s))"

definition spec_tokens :: "pystr \<Rightarrow> pystr list" where
  "spec_tokens line = filter (\<lambda>tok. tok \<noteq> []) (map spec_strip (spec_split line))"

definition spec_table :: "pystr \<Rightarrow> pystr list list" where
  "spec_table s = map spec_tokens (spec_lines s)"

section \<open>The outside world\<close>

text \<open>
  The program calls the chat platform, the file system, the vision model and the
  spreadsheet service. Each call is recorded as an action, in the order of the calls, and
  what each call returns or raises is given by the world.
\<close>

datatype action =
    GetMessageContent pystr
  | WriteFile pystr "nat list"
  | OpenImage pystr
  | GenerateContent pystr
  | SheetsService
  | SheetsAppend pystr pystr "pyval list list"
  | ReplyMessage pystr pystr

record world =
  content_result :: "pyexn + nat list list"
  uuid4 :: pystr
  write_result :: "pyexn option"
  image_open_result :: "pyexn option"
  generate_result :: "pyexn + pystr"
  spreadsheet_id_env :: "pystr option"
  service_result :: "pyexn option"
  strftime_now :: pystr
  append_result :: "pyexn option"
  reply_result :: "nat \<Rightarrow> pyexn option"

text \<open>
  \<open>content_result\<close>: \<open>line_bot_api.get_message_content\<close> raises or gives the chunks of
  the image. \<open>write_result\<close>: opening the file, reading the chunks and writing them.
  \<open>image_open_result\<close>: \<open>Image.open\<close>. \<open>generate_result\<close>:
  \<open>model.generate_content\<close> and \<open>response.text\<close>. \<open>spreadsheet_id_env\<close>:
  \<open>os.getenv('SPREADSHEET_ID')\<close>. \<open>service_result\<close>: reading the credentials and
  building the service. \<open>strftime_now\<close>: the formatted \<open>datetime.now()\<close>.
  \<open>append_result\<close>: the append request and the reading of its result.
  \<open>reply_result n\<close>: the call of \<open>reply_message\<close> that comes after \<open>n\<close> earlier ones.
\<close>

record event =
  message_id :: pystr
  reply_token :: pystr

section \<open>Text constants of the program\<close>

text \<open>The label of the first header cell, U+65E5 U+6642.\<close>

definition timestamp_label :: pystr where
  "timestamp_label = [0x65E5, 0x6642]"

text \<open>\<open>str(n)\<close> of a natural number: its decimal digits.\<close>

fun str_nat :: "nat \<Rightarrow> pystr" where
  "str_nat n = (if n < 10 then [48 + n] else str_nat (n div 10) @ [48 + n mod 10])"

declare str_nat.simps [simp del]

text \<open>The label of column \<open>i\<close>, counted from 0: U+5217 and then \<open>i + 1\<close>.\<close>

definition column_label :: "nat \<Rightarrow> pystr" where
  "column_label i = 0x5217 # str_nat (i + 1)"

text \<open>The prefix of every error text, ending in a colon and a space.\<close>

definition error_prefix :: pystr where
  "error_prefix =
     [0x30A8, 0x30E9, 0x30FC, 0x304C, 0x767A, 0x751F, 0x3057, 0x307E, 0x3057, 0x305F, 58, 32]"

text \<open>The reply after saving: a sentence, an empty line, a heading and a newline.\<close>

definition saved_prefix :: pystr where
  "saved_prefix =
     [0x753B, 0x50CF, 0x304B, 0x3089, 0x6587, 0x5B57, 0x3092, 0x62BD, 0x51FA, 0x3057, 0x3001,
      0x30B9, 0x30D7, 0x30EC, 0x30C3, 0x30C9, 0x30B7, 0x30FC, 0x30C8, 0x306B, 0x4FDD, 0x5B58,
      0x3057, 0x307E, 0x3057, 0x305F, 0x3002, 10, 10,
      0x62BD, 0x51FA, 0x3057, 0x305F, 0x5185, 0x5BB9, 58, 10]"

text \<open>The reply when no spreadsheet identifier is set.\<close>

definition no_spreadsheet_text :: pystr where
  "no_spreadsheet_text =
     [0x30B9, 0x30D7, 0x30EC, 0x30C3, 0x30C9, 0x30B7, 0x30FC, 0x30C8, 73, 68, 0x304C, 0x8A2D,
      0x5B9A, 0x3055, 0x308C, 0x3066, 0x3044, 0x307E, 0x305B, 0x3093, 0x3002]"

text \<open>\<open>RANGE_NAME\<close>: cell A1 of the first sheet.\<close>

definition RANGE_NAME :: pystr where
  "RANGE_NAME = [0x30B7, 0x30FC, 0x30C8, 49, 33, 65, 49]"

text \<open>\<open>os.path.join(SAVE_DIR, file_name)\<close> with the separator \<open>/\<close>.\<close>

definition SAVE_DIR :: pystr where
  "SAVE_DIR = [105, 109, 97, 103, 101, 115]"

definition image_path :: "pystr \<Rightarrow> pystr" where
  "image_path u = SAVE_DIR @ [47] @ u @ [46, 106, 112, 103]"

section \<open>The spreadsheet\<close>

text \<open>
  \<open>get_google_sheets_service\<close> catches every exception, prints it and returns
  \<open>None\<close>: whether a service object comes back.
\<close>

definition get_google_sheets_service :: "world \<Rightarrow> bool" where
  "get_google_sheets_service w = (case service_result w of None \<Rightarrow> True | Some e \<Rightarrow> False)"

text \<open>
  The header: the timestamp label, then one label for each column of \<open>table_data[0]\<close>,
  and none when \<open>table_data\<close> is empty.
\<close>

definition header_row :: "pyval list list \<Rightarrow> pyval list" where
  "header_row table_data =
     [PyStr timestamp_label] @
     [PyStr (column_label i). i \<leftarrow> [0 ..< (if table_data \<noteq> [] then length (table_data ! 0) else 0)]]"

text \<open>The loop \<open>for row in table_data\<close>, appending to \<open>values\<close>.\<close>

fun values_loop :: "pystr \<Rightarrow> pyval list list \<Rightarrow> pyval list list \<Rightarrow> pyval list list" where
  "values_loop current_time [] values = values"
| "values_loop current_time (row # table_data) values =
     values_loop current_time table_data (values @ [[PyStr current_time] @ row])"

text \<open>
  The body of the \<open>try\<close> in \<open>save_to_spreadsheet\<close>: the calls made, and whether the body
  ends by an exception. Without a service the function returns at once. The program calls
  the function with a \<open>str\<close> only, for which \<open>format_text_to_table\<close> prints nothing
  and returns its table.
\<close>

definition save_body :: "world \<Rightarrow> pyval \<Rightarrow> pystr \<Rightarrow> pystr \<Rightarrow> action list \<times> (pyexn + unit)" where
  "save_body w text spreadsheet_id range_name =
     (if \<not> get_google_sheets_service w then ([SheetsService], Inr ())
      else
        (let table_data = format_text_to_table text;
             current_time = strftime_now w;
             header = header_row table_data;
             values = values_loop current_time table_data [header]
         in ([SheetsService, SheetsAppend spreadsheet_id range_name values],
             (case append_result w of Some e \<Rightarrow> Inl e | None \<Rightarrow> Inr ()))))"

text \<open>\<open>except Exception\<close>: the exception is printed, and the function returns.\<close>

definition save_to_spreadsheet :: "world \<Rightarrow> pyval \<Rightarrow> pystr \<Rightarrow> pystr \<Rightarrow> action list" where
  "save_to_spreadsheet w text spreadsheet_id range_name =
     (case save_body w text spreadsheet_id range_name of
        (acts, Inr u) \<Rightarrow> acts
      | (acts, Inl e) \<Rightarrow> acts)"

section \<open>The vision model\<close>

text \<open>
  \<open>extract_text_from_image\<close> returns the text of the response, or, on any exception, the
  error text made from it: it never raises.
\<close>

definition extract_text_from_image :: "world \<Rightarrow> pystr \<Rightarrow> action list \<times> pystr" where
  "extract_text_from_image w path =
     (case image_open_result w of
        Some e \<Rightarrow> ([OpenImage path], error_prefix @ exn_str e)
      | None \<Rightarrow>
          (case generate_result w of
             Inl e \<Rightarrow> ([OpenImage path, GenerateContent path], error_prefix @ exn_str e)
           | Inr t \<Rightarrow> ([OpenImage path, GenerateContent path], t)))"

section \<open>The webhook\<close>

text \<open>How many calls of \<open>reply_message\<close> a list of actions holds.\<close>

fun is_reply :: "action \<Rightarrow> bool" where
  "is_reply (ReplyMessage token text) = True"
| "is_reply a = False"

definition replies_made :: "action list \<Rightarrow> nat" where
  "replies_made acts = length (filter is_reply acts)"

text \<open>\<open>line_bot_api.reply_message\<close> after the actions \<open>done\<close>: the call, and what it raises.\<close>

definition reply_message :: "world \<Rightarrow> action list \<Rightarrow> pystr \<Rightarrow> pystr \<Rightarrow> action list \<times> (pyexn + unit)" where
  "reply_message w done token text =
     (done @ [ReplyMessage token text],
      (case reply_result w (replies_made done) of Some e \<Rightarrow> Inl e | None \<Rightarrow> Inr ()))"

text \<open>
  The body of the \<open>try\<close> in \<open>handle_image_message\<close>. An empty \<open>SPREADSHEET_ID\<close> is
  false like a missing one.
\<close>

definition handle_try :: "world \<Rightarrow> event \<Rightarrow> action list \<times> (pyexn + unit)" where
  "handle_try w ev =
     (case content_result w of
        Inl e \<Rightarrow> ([GetMessageContent (message_id ev)], Inl e)
      | Inr chunks \<Rightarrow>
          (let file_path = image_path (uuid4 w);
               acts = [GetMessageContent (message_id ev), WriteFile file_path (concat chunks)]
           in case write_result w of
                Some e \<Rightarrow> (acts, Inl e)
              | None \<Rightarrow>
                  (let (acts_x, extracted_text) = extract_text_from_image w file_path;
                       acts = acts @ acts_x
                   in case spreadsheet_id_env w of
                        None \<Rightarrow> reply_message w acts (reply_token ev) no_spreadsheet_text
                      | Some SPREADSHEET_ID \<Rightarrow>
                          if SPREADSHEET_ID \<noteq> [] then
                            (let acts = acts @ save_to_spreadsheet w (PyStr extracted_text)
                                                 SPREADSHEET_ID RANGE_NAME
                             in reply_message w acts (reply_token ev)
                                  (saved_prefix @ extracted_text))
                          else reply_message w acts (reply_token ev) no_spreadsheet_text)))"

text \<open>
  \<open>except Exception as e\<close>: one call of \<open>reply_message\<close> with the error text. The call
  is outside any \<open>try\<close>, so what it raises leaves the handler.
\<close>

definition handle_image_message :: "world \<Rightarrow> event \<Rightarrow> action list \<times> (pyexn + unit)" where
  "handle_image_message w ev =
     (case handle_try w ev of
        (acts, Inr u) \<Rightarrow> (acts, Inr u)
      | (acts, Inl e) \<Rightarrow> reply_message w acts (reply_token ev) (error_prefix @ exn_str e))"

text \<open>
  The request as \<open>callback\<close> reads it: the header \<open>X-Line-Signature\<close>, if there is one,
  and the body.
\<close>

record request =
  signature_header :: "pystr option"
  body :: pystr

datatype response = Returned pystr | Aborted nat | Raised pyexn

text \<open>
  \<open>callback\<close>. The argument \<open>handler_handle\<close> is \<open>handler.handle\<close> of the platform
  library: given the body and the signature it returns (\<open>None\<close>) or raises. The lookup
  of a header that the request does not have raises a \<open>KeyError\<close> for the key
  \<open>HTTP_X_LINE_SIGNATURE\<close>, whose text is the key in quotes.
\<close>

definition callback :: "(pystr \<Rightarrow> pystr \<Rightarrow> pyexn option) \<Rightarrow> request \<Rightarrow> response" where
  "callback handler_handle req =
     (case signature_header req of
        None \<Rightarrow> Raised (PyExn KeyError ([39] @ ascii ''HTTP_X_LINE_SIGNATURE'' @ [39]))
      | Some signature \<Rightarrow>
          (case handler_handle (body req) signature of
             None \<Rightarrow> Returned (ascii ''OK'')
           | Some e \<Rightarrow>
               if exn_class_of e = InvalidSignatureError then Aborted 400 else Raised e))"

text \<open>
  The platform library, which is not part of the program, as far as \<open>handler.handle\<close>
  needs it. \<open>signature_valid body signature\<close>: whether the signature is the one of
  the body under the channel secret. \<open>parse_events body\<close>: the body read as JSON, which
  gives the image messages among its events, in order, or raises; the other events have no
  function registered for them and are passed over.
\<close>

record platform =
  signature_valid :: "pystr \<Rightarrow> pystr \<Rightarrow> bool"
  parse_events :: "pystr \<Rightarrow> pyexn + event list"

text \<open>
  The functions registered with \<open>@handler.add\<close>, here \<open>handle_image_message\<close> alone,
  called for the events one after the other: what one of them raises ends the loop.
\<close>

fun run_handlers :: "world \<Rightarrow> event list \<Rightarrow> pyexn option" where
  "run_handlers w [] = None"
| "run_handlers w (ev # evs) =
     (case handle_image_message w ev of
        (acts, Inl e) \<Rightarrow> Some e
      | (acts, Inr u) \<Rightarrow> run_handlers w evs)"

text \<open>
  \<open>handler.handle(body, signature)\<close>: the signature is checked first, and a wrong one
  raises \<open>InvalidSignatureError\<close>; then the body is read and the functions are called.
\<close>

definition handler_handle :: "platform \<Rightarrow> world \<Rightarrow> pystr \<Rightarrow> pystr \<Rightarrow> pyexn option" where
  "handler_handle lib w request_body signature =
     (if \<not> signature_valid lib request_body signature
      then Some (PyExn InvalidSignatureError
                   (ascii ''Invalid signature. signature='' @ signature))
      else (case parse_events lib request_body of
              Inl e \<Rightarrow> Some e
            | Inr events \<Rightarrow> run_handlers w events))"


section \<open>Sample worlds\<close>

text \<open>
  A world in which every call succeeds: an image of two chunks, the extracted text
  \<open>"a\tb\nc"\<close>, the spreadsheet \<open>"s"\<close> and the time \<open>"2024-01-02 03:04:05"\<close>.
\<close>

definition sample_time :: pystr where
  "sample_time = [50, 48, 50, 52, 45, 48, 49, 45, 48, 50, 32, 48, 51, 58, 48, 52, 58, 48, 53]"

definition world_ok :: world where
  "world_ok =
     \<lparr>content_result = Inr [[255, 216], [255, 217]],
      uuid4 = [117],
      write_result = None,
      image_open_result = None,
      generate_result = Inr [97, 9, 98, 10, 99],
      spreadsheet_id_env = Some [115],
      service_result = None,
      strftime_now = sample_time,
      append_result = None,
      reply_result = (\<lambda>n. None)\<rparr>"

definition event0 :: event where
  "event0 = \<lparr>message_id = [49], reply_token = [114]\<rparr>"


text \<open>The platform is out of reach: the download and every reply raise.\<close>

definition world_offline :: world where
  "world_offline =
     world_ok\<lparr>content_result := Inl (PyExn LineBotApiError [100]),
              reply_result := (\<lambda>n. Some (PyExn LineBotApiError [114]))\<rparr>"





section \<open>Sample requests\<close>

text \<open>
  Two bodies as the platform sends them, and their signatures under the channel secret
  \<open>secret\<close> (HMAC-SHA256 of the body, in base64): one without events, as the platform
  sends it to verify the endpoint, and one with one image message, whose message id is
  \<open>1\<close> and whose reply token is \<open>r\<close> as in \<open>event0\<close>.
\<close>

definition verify_body :: pystr where
  \<open>verify_body = ascii ''{"destination":"U0","events":[]}''\<close>

definition verify_signature :: pystr where
  "verify_signature = ascii ''KDbazXazGW43gmHESKGC6IsDxXtKu8HznYZdC60ZZh8=''"

definition image_body :: pystr where
  \<open>image_body =
     ascii ''{"destination":"U0","events":[{"type":"message","mode":"active","timestamp":1,'' @
     ascii ''"source":{"type":"user","userId":"U1"},"webhookEventId":"w1",'' @
     ascii ''"deliveryContext":{"isRedelivery":false},"replyToken":"r",'' @
     ascii ''"message":{"type":"image","id":"1","quoteToken":"q",'' @
     ascii ''"contentProvider":{"type":"line"}}}]}''\<close>

definition image_signature :: pystr where
  "image_signature = ascii ''kaQ2tNmd3vm9R/thmaUg6SXanvpFbaHVb7Q03Kak/XM=''"

text \<open>
  The platform library with the channel secret \<open>secret\<close>, on these bodies: no other
  pair of a body and a signature of the samples is valid.
\<close>

definition sample_platform :: platform where
  "sample_platform =
     \<lparr>signature_valid =
        (\<lambda>request_body signature.
           (request_body = verify_body \<and> signature = verify_signature)
           \<or> (request_body = image_body \<and> signature = image_signature)),
      parse_events =
        (\<lambda>request_body. if request_body = image_body then Inr [event0] else Inr [])\<rparr>"

text \<open>The requests: a wrong signature, the two signed bodies, and no signature header.\<close>

definition request_bad_signature :: request where
  "request_bad_signature = \<lparr>signature_header = Some (ascii ''x''), body = ascii ''{}''\<rparr>"

definition request_verify :: request where
  "request_verify = \<lparr>signature_header = Some verify_signature, body = verify_body\<rparr>"

definition request_image :: request where
  "request_image = \<lparr>signature_header = Some image_signature, body = image_body\<rparr>"

definition request_no_header :: request where
  "request_no_header = \<lparr>signature_header = None, body = verify_body\<rparr>"



section \<open>Facts about the string primitives\<close>

lemma is_space_tab: "is_space tab"
  by (simp add: is_space_def tab_def)

lemma dropWhile_all_iff: "(\<forall>x\<in>set (dropWhile P xs). P x) \<longleftrightarrow> (\<forall>x\<in>set xs. P x)"
  by (induction xs) auto

lemma strip_Nil_iff: "strip s = [] \<longleftrightarrow> (\<forall>c\<in>set s. is_space c)"
  by (simp add: strip_def dropWhile_all_iff)

lemma last_dropWhile: "dropWhile P xs \<noteq> [] \<Longrightarrow> last (dropWhile P xs) = last xs"
  by (induction xs) (auto split: if_splits)

lemma strip_hd: "strip s \<noteq> [] \<Longrightarrow> \<not> is_space (hd (strip s))"
proof -
  assume ne: "strip s \<noteq> []"
  let ?d = "dropWhile is_space s"
  from ne have d: "?d \<noteq> []" by (auto simp: strip_def dest: set_dropWhileD)
  from ne have r: "dropWhile is_space (rev ?d) \<noteq> []" by (simp add: strip_def)
  have "hd (strip s) = last (dropWhile is_space (rev ?d))"
    using r by (simp add: strip_def hd_rev)
  also have "\<dots> = last (rev ?d)" using r by (rule last_dropWhile)
  also have "\<dots> = hd ?d" using d by (simp add: last_rev)
  finally show ?thesis using d hd_dropWhile [of is_space s] by simp
qed

lemma strip_last: "strip s \<noteq> [] \<Longrightarrow> \<not> is_space (last (strip s))"
proof -
  assume ne: "strip s \<noteq> []"
  let ?d = "dropWhile is_space s"
  from ne have r: "dropWhile is_space (rev ?d) \<noteq> []" by (simp add: strip_def)
  have "last (strip s) = hd (dropWhile is_space (rev ?d))"
    using r by (simp add: strip_def last_rev)
  then show ?thesis using r hd_dropWhile [of is_space "rev ?d"] by simp
qed

lemma dropWhile_id: "xs = [] \<or> \<not> P (hd xs) \<Longrightarrow> dropWhile P xs = xs"
  by (cases xs) auto

lemma strip_fixed:
  "t = [] \<or> (\<not> is_space (hd t) \<and> \<not> is_space (last t)) \<Longrightarrow> strip t = t"
  by (cases "t = []") (simp_all add: strip_def dropWhile_id hd_rev)

lemma strip_strip: "strip (strip s) = strip s"
  by (rule strip_fixed) (use strip_hd strip_last in blast)

lemma comprehension_filter_map:
  "[f x. x \<leftarrow> xs, f x \<noteq> []] = filter (\<lambda>y. y \<noteq> []) (map f xs)"
  by (induction xs) simp_all

lemma split_char_no_sep: "sep \<notin> set s \<Longrightarrow> split_char sep piece s = [piece @ s]"
  by (induction s arbitrary: piece) simp_all

section \<open>Facts about the split on the pattern\<close>

lemma match_sep_nonspace: "\<not> is_space c \<Longrightarrow> match_sep (c # cs) = None"
  using is_space_tab by (auto simp: match_sep_def)

lemma re_split_from_first: "\<exists>q ps. re_split_from piece s = (piece @ q) # ps"
proof (induction piece s rule: re_split_from.induct)
  case (1 piece)
  then show ?case by simp
next
  case (2 piece c cs)
  show ?case
  proof (cases "match_sep (c # cs)")
    case None
    with 2 show ?thesis by auto
  next
    case (Some n)
    then show ?thesis by simp
  qed
qed

lemma re_split_first_nonspace:
  assumes "s \<noteq> []" "\<not> is_space (hd s)"
  shows "\<exists>q ps. re_split s = (hd s # q) # ps"
proof -
  from assms obtain c cs where s: "s = c # cs" and c: "\<not> is_space c"
    by (cases s) auto
  from re_split_from_first [of "[c]" cs] obtain q ps
    where "re_split_from [c] cs = ([c] @ q) # ps" by blast
  then show ?thesis using s c by (simp add: re_split_def match_sep_nonspace)
qed

lemma columns_of_nonempty:
  assumes "s \<noteq> []" "\<not> is_space (hd s)"
  shows "columns_of s \<noteq> []"
proof -
  from re_split_first_nonspace [OF assms] obtain q ps
    where r: "re_split s = (hd s # q) # ps" by blast
  have "strip (hd s # q) \<noteq> []" using assms(2) by (auto simp: strip_Nil_iff)
  then show ?thesis by (simp add: columns_of_def comprehension_filter_map r)
qed

lemma columns_of_tokens:
  "tok \<in> set (columns_of line) \<Longrightarrow> tok \<noteq> [] \<and> \<not> is_space (hd tok) \<and> \<not> is_space (last tok)"
  by (auto simp: columns_of_def comprehension_filter_map strip_hd strip_last)

lemma match_sep_no_run:
  assumes "c \<noteq> tab" "\<not> has_space_run (c # cs)"
  shows "match_sep (c # cs) = None"
proof (cases cs)
  case Nil
  with assms show ?thesis by (simp add: match_sep_def)
next
  case (Cons d ds)
  with assms show ?thesis by (auto simp: match_sep_def)
qed

lemma has_space_run_tl: "\<not> has_space_run (c # cs) \<Longrightarrow> \<not> has_space_run cs"
  by (cases cs) auto

lemma re_split_from_no_match:
  "tab \<notin> set s \<Longrightarrow> \<not> has_space_run s \<Longrightarrow> re_split_from piece s = [piece @ s]"
proof (induction s arbitrary: piece)
  case Nil
  then show ?case by simp
next
  case (Cons c cs)
  from Cons.prems have m: "match_sep (c # cs) = None"
    by (intro match_sep_no_run) auto
  from Cons.prems have "tab \<notin> set cs" "\<not> has_space_run cs"
    by (auto dest: has_space_run_tl)
  then have "re_split_from (piece @ [c]) cs = [(piece @ [c]) @ cs]"
    by (rule Cons.IH)
  with m show ?case by simp
qed

text \<open>
  The split does what its name says: no piece holds a tab or two whitespace characters in
  a row, and only whitespace is taken away, so that the other characters of the pieces are
  those of the string, in their order.
\<close>

lemma has_space_run_snoc:
  "has_space_run (p @ [c]) \<longleftrightarrow>
     has_space_run p \<or> (p \<noteq> [] \<and> is_space (last p) \<and> is_space c)"
  by (induction p rule: has_space_run.induct) auto

lemma match_sep_None_iff:
  "match_sep (c # cs) = None \<longleftrightarrow>
     c \<noteq> tab \<and> \<not> (is_space c \<and> cs \<noteq> [] \<and> is_space (hd cs))"
  by (cases cs) (auto simp: match_sep_def)

lemma re_split_from_pieces:
  assumes "tab \<notin> set piece" "\<not> has_space_run piece"
    and "piece = [] \<or> s = [] \<or> \<not> (is_space (last piece) \<and> is_space (hd s))"
    and "p \<in> set (re_split_from piece s)"
  shows "tab \<notin> set p \<and> \<not> has_space_run p"
  using assms
proof (induction piece s rule: re_split_from.induct)
  case (1 piece)
  then show ?case by simp
next
  case (2 piece c cs)
  show ?case
  proof (cases "match_sep (c # cs)")
    case None
    then have c: "c \<noteq> tab" "\<not> (is_space c \<and> cs \<noteq> [] \<and> is_space (hd cs))"
      by (simp_all add: match_sep_None_iff)
    from "2.prems"(1,2,3) c
    have "tab \<notin> set (piece @ [c])" "\<not> has_space_run (piece @ [c])"
      by (auto simp: has_space_run_snoc)
    moreover from c
    have "piece @ [c] = [] \<or> cs = [] \<or> \<not> (is_space (last (piece @ [c])) \<and> is_space (hd cs))"
      by auto
    moreover from "2.prems"(4) None have "p \<in> set (re_split_from (piece @ [c]) cs)"
      by simp
    ultimately show ?thesis using "2.IH"(1) [OF None] by blast
  next
    case (Some n)
    with "2.prems"(4) have "p = piece \<or> p \<in> set (re_split_from [] (drop n (c # cs)))"
      by auto
    then show ?thesis
    proof
      assume "p = piece"
      with "2.prems"(1,2) show ?thesis by simp
    next
      assume "p \<in> set (re_split_from [] (drop n (c # cs)))"
      then show ?thesis using "2.IH"(2) [OF Some] by simp
    qed
  qed
qed

lemma re_split_pieces:
  "p \<in> set (re_split s) \<Longrightarrow> tab \<notin> set p \<and> \<not> has_space_run p"
  using re_split_from_pieces [of "[]" s p] by (simp add: re_split_def)

lemma filter_dropWhile_not:
  "filter (\<lambda>c. \<not> P c) (dropWhile P s) = filter (\<lambda>c. \<not> P c) s"
  by (induction s) simp_all

lemma match_sep_removes_space:
  assumes "match_sep s = Some n"
  shows "filter (\<lambda>c. \<not> is_space c) (drop n s) = filter (\<lambda>c. \<not> is_space c) s"
proof (cases s)
  case Nil
  then show ?thesis by simp
next
  case (Cons c cs)
  show ?thesis
  proof (cases "c = tab")
    case True
    with assms Cons have "n = 1" by (simp add: match_sep_def)
    with Cons True show ?thesis using is_space_tab by simp
  next
    case False
    with assms Cons have "n = length (takeWhile is_space s)"
      by (auto simp: match_sep_def Let_def split: if_splits)
    then have "drop n s = dropWhile is_space s"
      by (simp only: dropWhile_eq_drop)
    then show ?thesis by (simp only: filter_dropWhile_not)
  qed
qed

lemma re_split_from_keeps_text:
  "filter (\<lambda>c. \<not> is_space c) (concat (re_split_from piece s)) =
   filter (\<lambda>c. \<not> is_space c) (piece @ s)"
proof (induction piece s rule: re_split_from.induct)
  case (1 piece)
  then show ?case by simp
next
  case (2 piece c cs)
  show ?case
  proof (cases "match_sep (c # cs)")
    case None
    with "2.IH"(1) show ?thesis by simp
  next
    case (Some n)
    with "2.IH"(2) [OF Some] match_sep_removes_space [OF Some] show ?thesis by simp
  qed
qed

lemma re_split_keeps_text:
  "filter (\<lambda>c. \<not> is_space c) (concat (re_split s)) = filter (\<lambda>c. \<not> is_space c) s"
  by (simp add: re_split_def re_split_from_keeps_text)

section \<open>Facts about the table\<close>

lemma strip_nonempty_str:
  "strip_nonempty (map PyStr xs) = Inr (map PyStr (filter (\<lambda>y. y \<noteq> []) (map strip xs)))"
  by (induction xs) simp_all

lemma table_loop_str:
  "table_loop (map PyStr lines) acc =
     Inr (acc @ map (map PyStr) (filter (\<lambda>r. r \<noteq> []) (map columns_of lines)))"
  by (induction lines arbitrary: acc)
    (simp_all add: strip_nonempty_str columns_of_def comprehension_filter_map)

lemma stripped_lines_columns:
  assumes "line \<in> set (filter (\<lambda>l. l \<noteq> []) (map strip ls))"
  shows "columns_of line \<noteq> []"
proof -
  from assms obtain l where "line = strip l" "strip l \<noteq> []" by auto
  then show ?thesis using strip_hd [of l] by (simp add: columns_of_nonempty)
qed

lemma format_body_str:
  "format_body (PyStr s) =
     Inr (map (map PyStr)
            (map columns_of (filter (\<lambda>l. l \<noteq> []) (map strip (split_char newline [] s)))))"
proof -
  let ?L = "filter (\<lambda>l. l \<noteq> []) (map strip (split_char newline [] s))"
  have "filter (\<lambda>r. r \<noteq> []) (map columns_of ?L) = map columns_of ?L"
    unfolding filter_id_conv using stripped_lines_columns [of _ "split_char newline [] s"]
    by auto
  then show ?thesis
    using table_loop_str [of ?L "[]"]
    by (simp add: format_body_def strip_nonempty_str)
qed


lemma format_text_to_table_eq:
  "format_text_to_table text =
     (case format_body text of Inr table_data \<Rightarrow> table_data | Inl e \<Rightarrow> [[text]])"
  by (simp add: format_text_to_table_def format_text_to_table_run_def split: sum.splits)

lemma format_text_to_table_run_quiet:
  "format_text_to_table_run (\<lambda>message. None) text = Inr (format_text_to_table text)"
  by (simp add: format_text_to_table_def format_text_to_table_run_def split: sum.splits)

lemma format_text_to_table_str:
  "format_text_to_table (PyStr s) =
     map (map PyStr)
       (map columns_of (filter (\<lambda>l. l \<noteq> []) (map strip (split_char newline [] s))))"
  by (simp add: format_text_to_table_eq format_body_str)

section \<open>The program's primitives and those of the specification\<close>

lemma split_char_takeWhile:
  "split_char sep p s =
     (if sep \<in> set s
      then (p @ takeWhile (\<lambda>c. c \<noteq> sep) s) #
           split_char sep [] (tl (dropWhile (\<lambda>c. c \<noteq> sep) s))
      else [p @ s])"
  by (induction s arbitrary: p) auto

lemma spec_lines_of_split: "spec_lines_of s = split_char newline [] s"
proof (induction s rule: spec_lines_of.induct)
  case (1 s)
  show ?case
  proof (cases "newline \<in> set s")
    case True
    with 1 show ?thesis
      by (subst spec_lines_of.simps, subst split_char_takeWhile) simp
  next
    case False
    then show ?thesis
      by (subst spec_lines_of.simps, subst split_char_takeWhile) simp
  qed
qed

lemma rev_dropWhile_rev:
  "rev (dropWhile P (rev d)) = take (length d - length (takeWhile P (rev d))) d"
proof -
  have "rev (dropWhile P (rev d)) = rev (drop (length (takeWhile P (rev d))) (rev d))"
    by (simp only: dropWhile_eq_drop)
  then show ?thesis by (simp add: rev_drop)
qed

lemma spec_strip_strip: "spec_strip s = strip s"
proof (cases "dropWhile is_space s = []")
  case True
  then have "length (takeWhile is_space s) = length s"
    by (metis append_Nil2 takeWhile_dropWhile_id)
  moreover from True have "strip s = []" by (simp add: strip_Nil_iff)
  ultimately show ?thesis by (simp add: spec_strip_def)
next
  case False
  let ?d = "dropWhile is_space s"
  let ?i = "length (takeWhile is_space s)"
  have d: "?d = drop ?i s" by (rule dropWhile_eq_drop)
  have "hd ?d \<in> set (rev ?d)" "\<not> is_space (hd ?d)"
    using False hd_dropWhile [of is_space s] by simp_all
  then have "takeWhile is_space (rev ?d @ rev (takeWhile is_space s)) =
             takeWhile is_space (rev ?d)"
    by (rule takeWhile_append1)
  moreover have "rev s = rev ?d @ rev (takeWhile is_space s)"
    by (metis rev_append takeWhile_dropWhile_id)
  ultimately have j: "length (takeWhile is_space (rev s)) = length (takeWhile is_space (rev ?d))"
    by simp
  have "length ?d = length s - ?i" by (simp add: d)
  with j have "strip s = take (length s - ?i - length (takeWhile is_space (rev s))) ?d"
    by (simp add: strip_def rev_dropWhile_rev)
  then show ?thesis by (simp add: spec_strip_def Let_def d)
qed

section \<open>The split on the pattern and the split on the separators\<close>

lemma re_split_from_prepend:
  "re_split_from (q @ p) s = (q @ hd (re_split_from p s)) # tl (re_split_from p s)"
proof (induction p s rule: re_split_from.induct)
  case (1 piece)
  then show ?case by simp
next
  case (2 piece c cs)
  show ?case
  proof (cases "match_sep (c # cs)")
    case None
    with "2.IH"(1) show ?thesis by simp
  next
    case (Some n)
    then show ?thesis by simp
  qed
qed

lemma strip_space_Cons: "is_space c \<Longrightarrow> strip (c # x) = strip x"
  by (simp add: strip_def)

lemma tokens_space_piece:
  assumes "is_space c"
  shows "filter (\<lambda>t. t \<noteq> []) (map strip (re_split_from [c] s)) =
         filter (\<lambda>t. t \<noteq> []) (map strip (re_split_from [] s))"
proof -
  obtain h t where r: "re_split_from [] s = h # t"
    using re_split_from_first [of "[]" s] by auto
  have "re_split_from ([c] @ []) s = ([c] @ h) # t"
    by (subst re_split_from_prepend) (simp add: r)
  then show ?thesis using assms by (simp add: r strip_space_Cons)
qed

lemma takeWhile_space_prefix:
  assumes "\<forall>c\<in>set w. is_space c" "s' = [] \<or> \<not> is_space (hd s')"
  shows "takeWhile is_space (w @ s') = w"
proof -
  from assms(2) have "takeWhile is_space s' = []" by (cases s') auto
  with assms(1) show ?thesis by (simp add: takeWhile_append2)
qed

lemma tokens_leading_space:
  assumes "\<forall>c\<in>set w. is_space c" "s' = [] \<or> \<not> is_space (hd s')"
  shows "filter (\<lambda>t. t \<noteq> []) (map strip (re_split_from [] (w @ s'))) =
         filter (\<lambda>t. t \<noteq> []) (map strip (re_split_from [] s'))"
  using assms(1)
proof (induction w)
  case Nil
  then show ?case by simp
next
  case (Cons c w)
  then have w: "\<forall>c\<in>set w. is_space c" and c: "is_space c" by simp_all
  show ?case
  proof (cases "c = tab")
    case True
    then have "match_sep (c # w @ s') = Some 1" by (simp add: match_sep_def)
    then have "re_split_from [] ((c # w) @ s') = [] # re_split_from [] (w @ s')" by simp
    then show ?thesis using Cons.IH [OF w] by (simp add: strip_def)
  next
    case False
    have n: "length (takeWhile is_space (c # w @ s')) = Suc (length w)"
      using takeWhile_space_prefix [of "c # w" s'] c w assms(2) by simp
    show ?thesis
    proof (cases "w = []")
      case True
      with False n have "match_sep (c # w @ s') = None" by (simp add: match_sep_def)
      with True have "re_split_from [] ((c # w) @ s') = re_split_from [c] s'" by simp
      then show ?thesis using c by (simp add: tokens_space_piece)
    next
      case nonempty: False
      then have "2 \<le> Suc (length w)" by (cases w) simp_all
      with False n have "match_sep (c # w @ s') = Some (Suc (length w))"
        by (simp add: match_sep_def)
      then have "re_split_from [] ((c # w) @ s') = [] # re_split_from [] s'" by simp
      then show ?thesis by (simp add: strip_def)
    qed
  qed
qed

lemma re_split_from_word:
  "\<forall>c\<in>set r. \<not> is_space c \<Longrightarrow> re_split_from p (r @ s') = re_split_from (p @ r) s'"
  by (induction r arbitrary: p) (simp_all add: match_sep_nonspace)

lemma tokens_separator:
  assumes "\<forall>c\<in>set r. is_space c" "separator r" "s' = [] \<or> \<not> is_space (hd s')"
  shows "filter (\<lambda>t. t \<noteq> []) (map strip (re_split_from p (r @ s'))) =
         filter (\<lambda>t. t \<noteq> []) [strip p] @
         filter (\<lambda>t. t \<noteq> []) (map strip (re_split_from [] s'))"
proof -
  from assms(2) obtain c w where r: "r = c # w"
    by (cases r) (auto simp: separator_def)
  with assms(1) have w: "\<forall>c\<in>set w. is_space c" and c: "is_space c" by simp_all
  show ?thesis
  proof (cases "c = tab")
    case True
    then have "match_sep (c # w @ s') = Some 1" by (simp add: match_sep_def)
    then have "re_split_from p (r @ s') = p # re_split_from [] (w @ s')" by (simp add: r)
    then show ?thesis using tokens_leading_space [OF w assms(3)] by simp
  next
    case False
    with assms(2) r have "2 \<le> Suc (length w)" by (auto simp: separator_def)
    moreover have "length (takeWhile is_space (c # w @ s')) = Suc (length w)"
      using takeWhile_space_prefix [of "c # w" s'] c w assms(3) by simp
    ultimately have "match_sep (c # w @ s') = Some (Suc (length w))"
      using False by (simp add: match_sep_def)
    then have "re_split_from p (r @ s') = p # re_split_from [] s'" by (simp add: r)
    then show ?thesis by simp
  qed
qed

lemma re_split_from_single_space:
  assumes "is_space c" "\<not> separator [c]" "s' = [] \<or> \<not> is_space (hd s')"
  shows "re_split_from p (c # s') = re_split_from (p @ [c]) s'"
proof -
  from assms(2) have "c \<noteq> tab" by (auto simp: separator_def)
  with assms(3) have "match_sep (c # s') = None" by (auto simp: match_sep_None_iff)
  then show ?thesis by simp
qed

lemma tokens_pieces_between:
  "filter (\<lambda>t. t \<noteq> []) (map strip (re_split_from p s)) =
   filter (\<lambda>t. t \<noteq> []) (map strip (pieces_between p (runs s)))"
proof (induction s arbitrary: p rule: runs.induct)
  case 1
  then show ?case by simp
next
  case (2 c cs)
  let ?same = "\<lambda>d. is_space d = is_space c"
  let ?r = "c # takeWhile ?same cs"
  let ?s' = "dropWhile ?same cs"
  have s: "c # cs = ?r @ ?s'" by simp
  have r_class: "\<forall>d\<in>set ?r. is_space d = is_space c"
    by (auto dest: set_takeWhileD)
  have s'_class: "?s' = [] \<or> is_space (hd ?s') \<noteq> is_space c"
    using hd_dropWhile [of ?same cs] by auto
  show ?case
  proof (cases "is_space c")
    case False
    with r_class have word: "\<forall>d\<in>set ?r. \<not> is_space d" by simp
    from False have "\<not> separator ?r"
      using is_space_tab by (auto simp: separator_def)
    then have "pieces_between p (runs (c # cs)) = pieces_between (p @ ?r) (runs ?s')"
      by simp
    moreover have "re_split_from p (c # cs) = re_split_from (p @ ?r) ?s'"
      by (subst s) (rule re_split_from_word [OF word])
    ultimately show ?thesis using "2.IH" [of "p @ ?r"] by simp
  next
    case True
    with r_class have space: "\<forall>d\<in>set ?r. is_space d" by simp
    from True s'_class have boundary: "?s' = [] \<or> \<not> is_space (hd ?s')" by auto
    show ?thesis
    proof (cases "separator ?r")
      case sep: True
      then have "pieces_between p (runs (c # cs)) = p # pieces_between [] (runs ?s')"
        by simp
      moreover have "filter (\<lambda>t. t \<noteq> []) (map strip (re_split_from p (c # cs))) =
          filter (\<lambda>t. t \<noteq> []) [strip p] @
          filter (\<lambda>t. t \<noteq> []) (map strip (re_split_from [] ?s'))"
        by (subst s) (rule tokens_separator [OF space sep boundary])
      ultimately show ?thesis using "2.IH" [of "[]"] by simp
    next
      case nosep: False
      with space have "takeWhile ?same cs = []"
        by (cases "takeWhile ?same cs") (auto simp: separator_def list_all_iff)
      then have r: "?r = [c]" by simp
      from nosep have nosep1: "\<not> separator [c]" unfolding r .
      from nosep have "pieces_between p (runs (c # cs)) = pieces_between (p @ [c]) (runs ?s')"
        by (simp add: r)
      moreover have "re_split_from p (c # cs) = re_split_from (p @ [c]) ?s'"
      proof -
        have "c # cs = c # ?s'" using s r by simp
        moreover have "re_split_from p (c # ?s') = re_split_from (p @ [c]) ?s'"
          using True nosep1 boundary by (rule re_split_from_single_space)
        ultimately show ?thesis by simp
      qed
      ultimately show ?thesis using "2.IH" [of "p @ [c]"] by simp
    qed
  qed
qed

lemma spec_tokens_columns: "spec_tokens line = columns_of line"
proof -
  have "spec_strip = strip" by (rule ext) (rule spec_strip_strip)
  then show ?thesis
    using tokens_pieces_between [of "[]" line]
    by (simp add: spec_tokens_def spec_split_def columns_of_def comprehension_filter_map
        re_split_def)
qed

lemma spec_table_columns:
  "spec_table s =
     map columns_of (filter (\<lambda>l. l \<noteq> []) (map strip (split_char newline [] s)))"
proof -
  have "spec_strip = strip" by (rule ext) (rule spec_strip_strip)
  moreover have "spec_tokens = columns_of" by (rule ext) (rule spec_tokens_columns)
  ultimately show ?thesis
    by (simp add: spec_table_def spec_lines_def spec_lines_of_split)
qed

lemma spec_table_example:
  "spec_table [97, 9, 32, 98, 32, 9, 9, 99, 32, 100, 11, 101, 10, 32, 32, 10, 9, 120, 32] =
     [[[97], [98], [99, 32, 100, 11, 101]], [[120]]]"
  by (simp add: spec_table_def spec_lines_def spec_tokens_def spec_split_def spec_strip_def
      spec_lines_of.simps separator_def is_space_def newline_def tab_def Let_def)

section \<open>Facts about the spreadsheet and the handler\<close>

lemma values_loop_eq:
  "values_loop t table_data vals = vals @ map (\<lambda>row. PyStr t # row) table_data"
  by (induction table_data arbitrary: vals) simp_all

lemma header_row_eq:
  "header_row table_data =
     PyStr timestamp_label #
     map (\<lambda>i. PyStr (column_label i))
       [0 ..< (case table_data of [] \<Rightarrow> 0 | first # rest \<Rightarrow> length first)]"
  by (cases table_data) (simp_all add: header_row_def)

lemma save_to_spreadsheet_eq:
  "save_to_spreadsheet w text spreadsheet_id range_name =
     (if service_result w = None then
        [SheetsService,
         SheetsAppend spreadsheet_id range_name
           (header_row (format_text_to_table text) #
            map (\<lambda>row. PyStr (strftime_now w) # row) (format_text_to_table text))]
      else [SheetsService])"
  by (auto simp: save_to_spreadsheet_def save_body_def get_google_sheets_service_def Let_def
      values_loop_eq split: option.splits)

lemma str_nat_digit: "n < 10 \<Longrightarrow> str_nat n = [48 + n]"
  by (simp add: str_nat.simps)

lemma sample_table:
  "format_text_to_table (PyStr [97, 9, 98, 10, 99]) = [[PyStr [97], PyStr [98]], [PyStr [99]]]"
  by (simp add: format_text_to_table_str columns_of_def newline_def tab_def strip_def
      is_space_def re_split_def match_sep_def)

lemma sample_table2:
  "format_text_to_table (PyStr [97, 10, 98, 9, 99]) = [[PyStr [97]], [PyStr [98], PyStr [99]]]"
  by (simp add: format_text_to_table_str columns_of_def newline_def tab_def strip_def
      is_space_def re_split_def match_sep_def)


lemma sample_platform_facts:
  "\<not> signature_valid sample_platform (ascii ''{}'') (ascii ''x'')"
  "signature_valid sample_platform verify_body verify_signature"
  "signature_valid sample_platform image_body image_signature"
  "parse_events sample_platform verify_body = Inr []"
  "parse_events sample_platform image_body = Inr [event0]"
  by (simp_all add: sample_platform_def verify_body_def image_body_def verify_signature_def
      ascii_def)

lemma run_handlers_ok: "run_handlers world_ok [event0] = None"
  by (simp add: handle_image_message_def handle_try_def reply_message_def replies_made_def
      extract_text_from_image_def save_to_spreadsheet_eq world_ok_def event0_def Let_def)

lemma run_handlers_offline:
  "run_handlers world_offline [event0] = Some (PyExn LineBotApiError [114])"
  by (simp add: handle_image_message_def handle_try_def reply_message_def replies_made_def
      world_offline_def world_ok_def event0_def)

lemma sample_handle_verify:
  "handler_handle sample_platform world_ok verify_body verify_signature = None"
  by (simp add: handler_handle_def sample_platform_facts)

lemma sample_handle_image:
  "handler_handle sample_platform world_ok image_body image_signature = None"
  "handler_handle sample_platform world_offline image_body image_signature =
     Some (PyExn LineBotApiError [114])"
  by (simp_all add: handler_handle_def sample_platform_facts run_handlers_ok
      run_handlers_offline del: run_handlers.simps)







section \<open>Claims about format_text_to_table\<close>

text \<open>
  C1. For every input string, \<open>format_text_to_table\<close> returns the table of the
  specification: the input split by newlines, the lines that are empty after stripping
  dropped, each remaining line split on a tab or a run of two or more whitespace
  characters, the tokens that are empty after stripping dropped, one row for each line, in
  the order of the lines. The table of the specification, \<open>spec_table\<close>, is written
  with its own splitting and stripping, not with the operations of the program.
\<close>

theorem format_text_to_table_spec:
  "format_text_to_table (PyStr s) = map (map PyStr) (spec_table s)"
  by (simp add: format_text_to_table_str spec_table_columns)

text \<open>
  C2. An input without a newline which is not empty after stripping, and whose stripped
  text has no tab and no two whitespace characters in a row, gives one row of one column:
  the stripped input.
\<close>

theorem format_text_to_table_single:
  assumes "newline \<notin> set s" and "strip s \<noteq> []"
    and "tab \<notin> set (strip s)" and "\<not> has_space_run (strip s)"
  shows "format_text_to_table (PyStr s) = [[PyStr (strip s)]]"
proof -
  from assms(1) have "split_char newline [] s = [s]"
    by (simp add: split_char_no_sep)
  moreover from assms(3,4) have "re_split (strip s) = [strip s]"
    by (simp add: re_split_def re_split_from_no_match)
  ultimately show ?thesis
    using assms(2)
    by (simp add: format_text_to_table_str columns_of_def strip_strip)
qed

text \<open>
The input \<open>" a b "\<close>: one row, one column, \<open>"a b"\<close>.
\<close>

theorem format_text_to_table_single_witness:
  "newline \<notin> set [32, 97, 32, 98, 32] \<and> strip [32, 97, 32, 98, 32] = [97, 32, 98]
   \<and> tab \<notin> set (strip [32, 97, 32, 98, 32]) \<and> \<not> has_space_run (strip [32, 97, 32, 98, 32])
   \<and> format_text_to_table (PyStr [32, 97, 32, 98, 32]) = [[PyStr [97, 32, 98]]]"
  using format_text_to_table_single [of "[32, 97, 32, 98, 32]"]
  by (simp add: newline_def tab_def strip_def is_space_def)




text \<open>
  C8. On a string no operation of the body raises: the split by newlines gives strings,
  the stripping and filtering of strings gives strings, the split of a string on the
  pattern gives strings, and the loop over strings ends with a table. So the body ends
  with the table, the \<open>except\<close> branch is not taken and nothing is printed: whatever
  the standard output, the function returns the table.
\<close>

theorem format_body_str_never_raises:
  "py_split_newline (PyStr s) = Inr (map PyStr (split_char newline [] s))
   \<and> strip_nonempty (map PyStr xs) =
       Inr (map PyStr (filter (\<lambda>y. y \<noteq> []) (map strip xs)))
   \<and> py_re_split (PyStr line) = Inr (map PyStr (re_split line))
   \<and> table_loop (map PyStr kept) acc =
       Inr (acc @ map (map PyStr) (filter (\<lambda>r. r \<noteq> []) (map columns_of kept)))
   \<and> format_body (PyStr s) = Inr (format_text_to_table (PyStr s))
   \<and> format_text_to_table_run stdout (PyStr s) = Inr (format_text_to_table (PyStr s))
   \<and> (\<forall>e. format_body (PyStr s) \<noteq> Inl e)
   \<and> (\<forall>e. format_text_to_table_run stdout (PyStr s) \<noteq> Inl e)"
  by (simp add: strip_nonempty_str table_loop_str format_body_str format_text_to_table_str
      format_text_to_table_run_def)

text \<open>
  C9. For every input string, every row of the result has a token at least, and every
  token is a string that is not empty and neither starts nor ends with a whitespace
  character.
\<close>

theorem format_text_to_table_tokens:
  "\<forall>row \<in> set (format_text_to_table (PyStr s)).
     row \<noteq> [] \<and>
     (\<forall>cell \<in> set row.
        \<exists>tok. cell = PyStr tok \<and> tok \<noteq> [] \<and> \<not> is_space (hd tok) \<and> \<not> is_space (last tok))"
proof
  fix row
  assume "row \<in> set (format_text_to_table (PyStr s))"
  then obtain line
    where line: "line \<in> set (filter (\<lambda>l. l \<noteq> []) (map strip (split_char newline [] s)))"
      and row: "row = map PyStr (columns_of line)"
    by (auto simp: format_text_to_table_str)
  from line have "columns_of line \<noteq> []" by (rule stripped_lines_columns)
  with row show "row \<noteq> [] \<and>
     (\<forall>cell \<in> set row.
        \<exists>tok. cell = PyStr tok \<and> tok \<noteq> [] \<and> \<not> is_space (hd tok) \<and> \<not> is_space (last tok))"
    using columns_of_tokens [of _ line] by auto
qed

text \<open>
The input \<open>" a  b\t\n\nc d"\<close>: the rows \<open>a, b\<close> and \<open>c d\<close>.
\<close>

theorem format_text_to_table_tokens_witness:
  "format_text_to_table (PyStr [32, 97, 32, 32, 98, 9, 10, 10, 99, 32, 100]) =
     [[PyStr [97], PyStr [98]], [PyStr [99, 32, 100]]]
   \<and> \<not> is_space (hd [97]) \<and> \<not> is_space (last [99, 32, 100])"
  using format_text_to_table_tokens [of "[32, 97, 32, 32, 98, 9, 10, 10, 99, 32, 100]"]
  by (simp add: format_text_to_table_str columns_of_def newline_def tab_def strip_def
      is_space_def re_split_def match_sep_def)

section \<open>Claims about save_to_spreadsheet\<close>

text \<open>
  C3. Whenever \<open>save_to_spreadsheet\<close> appends to the spreadsheet, the rows after the
  header are the rows of \<open>format_text_to_table\<close> of the text, each with the timestamp in
  front, in the same order.
\<close>

theorem save_to_spreadsheet_rows:
  assumes "SheetsAppend sid rng vals \<in> set (save_to_spreadsheet w text spreadsheet_id range_name)"
  shows "vals \<noteq> [] \<and>
         tl vals = map (\<lambda>row. PyStr (strftime_now w) # row) (format_text_to_table text)"
  using assms by (auto simp: save_to_spreadsheet_eq split: if_splits)

text \<open>The text \<open>"a\tb\nc"\<close> in the world where every call succeeds.\<close>

theorem save_to_spreadsheet_rows_witness:
  "SheetsAppend [115] RANGE_NAME
     [[PyStr timestamp_label, PyStr (column_label 0), PyStr (column_label 1)],
      [PyStr sample_time, PyStr [97], PyStr [98]],
      [PyStr sample_time, PyStr [99]]]
     \<in> set (save_to_spreadsheet world_ok (PyStr [97, 9, 98, 10, 99]) [115] RANGE_NAME)
   \<and> tl [[PyStr timestamp_label, PyStr (column_label 0), PyStr (column_label 1)],
          [PyStr sample_time, PyStr [97], PyStr [98]],
          [PyStr sample_time, PyStr [99]]]
     = map (\<lambda>row. PyStr (strftime_now world_ok) # row)
         (format_text_to_table (PyStr [97, 9, 98, 10, 99]))"
  using save_to_spreadsheet_rows [of "[115]" RANGE_NAME
      "[[PyStr timestamp_label, PyStr (column_label 0), PyStr (column_label 1)],
        [PyStr sample_time, PyStr [97], PyStr [98]],
        [PyStr sample_time, PyStr [99]]]"
      world_ok "PyStr [97, 9, 98, 10, 99]" "[115]" RANGE_NAME]
  by (simp add: save_to_spreadsheet_eq sample_table header_row_eq world_ok_def)

text \<open>
  C10. With a service, \<open>save_to_spreadsheet\<close> makes one append, whose first row is the
  header and whose other rows are the data rows. The header is the timestamp label and one
  numbered label for each column of the first parsed row, none when no row is parsed.
  Later rows may be longer or shorter than the header: for \<open>"a\nb\tc"\<close> the header has one
  column label and the second data row two columns, for \<open>"a\tb\nc"\<close> the header has two
  column labels and the second data row one column.
\<close>

theorem save_to_spreadsheet_header:
  "save_to_spreadsheet w text spreadsheet_id range_name =
     (if get_google_sheets_service w then
        [SheetsService,
         SheetsAppend spreadsheet_id range_name
           ((PyStr timestamp_label #
             map (\<lambda>i. PyStr (column_label i))
               [0 ..< (case format_text_to_table text of [] \<Rightarrow> 0
                       | first # rest \<Rightarrow> length first)]) #
            map (\<lambda>row. PyStr (strftime_now w) # row) (format_text_to_table text))]
      else [SheetsService])
   \<and> save_to_spreadsheet world_ok (PyStr []) [115] RANGE_NAME =
       [SheetsService, SheetsAppend [115] RANGE_NAME [[PyStr timestamp_label]]]
   \<and> save_to_spreadsheet world_ok (PyStr [97, 10, 98, 9, 99]) [115] RANGE_NAME =
       [SheetsService,
        SheetsAppend [115] RANGE_NAME
          [[PyStr timestamp_label, PyStr [0x5217, 49]],
           [PyStr sample_time, PyStr [97]],
           [PyStr sample_time, PyStr [98], PyStr [99]]]]
   \<and> save_to_spreadsheet world_ok (PyStr [97, 9, 98, 10, 99]) [115] RANGE_NAME =
       [SheetsService,
        SheetsAppend [115] RANGE_NAME
          [[PyStr timestamp_label, PyStr [0x5217, 49], PyStr [0x5217, 50]],
           [PyStr sample_time, PyStr [97], PyStr [98]],
           [PyStr sample_time, PyStr [99]]]]"
proof -
  have empty: "format_text_to_table (PyStr []) = []"
    by (simp add: format_text_to_table_str strip_def)
  have ok: "service_result world_ok = None" "strftime_now world_ok = sample_time"
    by (simp_all add: world_ok_def)
  have general: "save_to_spreadsheet w text spreadsheet_id range_name =
     (if get_google_sheets_service w then
        [SheetsService,
         SheetsAppend spreadsheet_id range_name
           ((PyStr timestamp_label #
             map (\<lambda>i. PyStr (column_label i))
               [0 ..< (case format_text_to_table text of [] \<Rightarrow> 0
                       | first # rest \<Rightarrow> length first)]) #
            map (\<lambda>row. PyStr (strftime_now w) # row) (format_text_to_table text))]
      else [SheetsService])"
    by (simp add: save_to_spreadsheet_eq header_row_eq get_google_sheets_service_def
        split: option.splits)
  have none: "save_to_spreadsheet world_ok (PyStr []) [115] RANGE_NAME =
       [SheetsService, SheetsAppend [115] RANGE_NAME [[PyStr timestamp_label]]]"
    by (simp add: save_to_spreadsheet_eq header_row_eq empty ok)
  have more: "save_to_spreadsheet world_ok (PyStr [97, 10, 98, 9, 99]) [115] RANGE_NAME =
       [SheetsService,
        SheetsAppend [115] RANGE_NAME
          [[PyStr timestamp_label, PyStr [0x5217, 49]],
           [PyStr sample_time, PyStr [97]],
           [PyStr sample_time, PyStr [98], PyStr [99]]]]"
    by (simp add: save_to_spreadsheet_eq header_row_eq sample_table2 ok column_label_def
        str_nat_digit)
  have fewer: "save_to_spreadsheet world_ok (PyStr [97, 9, 98, 10, 99]) [115] RANGE_NAME =
       [SheetsService,
        SheetsAppend [115] RANGE_NAME
          [[PyStr timestamp_label, PyStr [0x5217, 49], PyStr [0x5217, 50]],
           [PyStr sample_time, PyStr [97], PyStr [98]],
           [PyStr sample_time, PyStr [99]]]]"
    by (simp add: save_to_spreadsheet_eq header_row_eq sample_table ok column_label_def
        str_nat_digit upt_rec)
  from general none more fewer show ?thesis by (intro conjI)
qed


section \<open>Claims about the webhook\<close>

text \<open>
  C5, as the code has it. For a request with the signature header: when the signature is
  not valid, \<open>handler.handle\<close> raises \<open>InvalidSignatureError\<close> and the request is
  aborted with status 400; when \<open>handler.handle\<close> returns, \<open>callback\<close> returns
  \<open>'OK'\<close>; any other exception that \<open>handler.handle\<close> raises, from the reading of the
  body or from \<open>handle_image_message\<close>, leaves \<open>callback\<close>. Without the header the
  lookup raises a \<open>KeyError\<close> before any verification.
\<close>

theorem callback_outcomes:
  "(signature_header req = None \<longrightarrow> (\<exists>m. callback h req = Raised (PyExn KeyError m)))
   \<and> (signature_header req = Some signature \<longrightarrow>
        (h (body req) signature = None \<longrightarrow> callback h req = Returned (ascii ''OK''))
        \<and> (\<forall>e. h (body req) signature = Some e \<longrightarrow>
             callback h req =
               (if exn_class_of e = InvalidSignatureError then Aborted 400 else Raised e))
        \<and> (\<not> signature_valid lib (body req) signature \<longrightarrow>
             callback (handler_handle lib w) req = Aborted 400)
        \<and> (signature_valid lib (body req) signature \<longrightarrow>
             handler_handle lib w (body req) signature =
               (case parse_events lib (body req) of
                  Inl e \<Rightarrow> Some e
                | Inr events \<Rightarrow> run_handlers w events)))"
  by (simp add: callback_def handler_handle_def)

text \<open>
  No header: a \<open>KeyError\<close>. A wrong signature: 400. The signed body without events
  and the signed body with one image message, handled without error: \<open>'OK'\<close>.
\<close>

theorem callback_outcomes_witness:
  "signature_header request_no_header = None
   \<and> callback (handler_handle sample_platform world_ok) request_no_header =
       Raised (PyExn KeyError ([39] @ ascii ''HTTP_X_LINE_SIGNATURE'' @ [39]))
   \<and> signature_header request_bad_signature = Some (ascii ''x'')
   \<and> \<not> signature_valid sample_platform (body request_bad_signature) (ascii ''x'')
   \<and> callback (handler_handle sample_platform world_ok) request_bad_signature = Aborted 400
   \<and> signature_header request_verify = Some verify_signature
   \<and> signature_valid sample_platform (body request_verify) verify_signature
   \<and> handler_handle sample_platform world_ok (body request_verify) verify_signature = None
   \<and> callback (handler_handle sample_platform world_ok) request_verify = Returned (ascii ''OK'')
   \<and> signature_header request_image = Some image_signature
   \<and> signature_valid sample_platform (body request_image) image_signature
   \<and> handler_handle sample_platform world_ok (body request_image) image_signature = None
   \<and> callback (handler_handle sample_platform world_ok) request_image = Returned (ascii ''OK'')"
  using callback_outcomes [of request_no_header "handler_handle sample_platform world_ok"
      "[]" sample_platform world_ok]
    callback_outcomes [of request_bad_signature "handler_handle sample_platform world_ok"
      "ascii ''x''" sample_platform world_ok]
    callback_outcomes [of request_verify "handler_handle sample_platform world_ok"
      verify_signature sample_platform world_ok]
    callback_outcomes [of request_image "handler_handle sample_platform world_ok"
      image_signature sample_platform world_ok]
  by (simp add: request_no_header_def request_bad_signature_def request_verify_def
      request_image_def sample_platform_facts sample_handle_verify sample_handle_image
      callback_def)

text \<open>
  C5 as it is stated fails: the signature of the body with one image message is valid,
  \<open>handle_image_message\<close> raises (the download and the error reply both fail), so
  \<open>handler.handle\<close> raises an exception that is not \<open>InvalidSignatureError\<close>, and
  \<open>callback\<close> neither aborts with 400 nor returns \<open>'OK'\<close>.
\<close>

theorem callback_other_exception:
  "signature_header request_image = Some image_signature
   \<and> signature_valid sample_platform (body request_image) image_signature
   \<and> handler_handle sample_platform world_offline (body request_image) image_signature
       = Some (PyExn LineBotApiError [114])
   \<and> exn_class_of (PyExn LineBotApiError [114]) \<noteq> InvalidSignatureError
   \<and> callback (handler_handle sample_platform world_offline) request_image
       = Raised (PyExn LineBotApiError [114])"
  by (simp add: request_image_def sample_platform_facts sample_handle_image callback_def)







end
